theory Spec2Isabelle
  imports Main
begin

section \<open>Python strings and values\<close>

text \<open>
  A Python \<open>str\<close> is a sequence of Unicode code points, so a string is a list of natural
  numbers, one per code point. \<open>lit\<close> turns an ASCII literal into such a string.
\<close>

type_synonym pychar = nat
type_synonym pystr = "pychar list"

definition lit :: "string \<Rightarrow> pystr" where
  "lit s = map of_char s"

abbreviation (input) LF :: pychar where "LF \<equiv> 10"
abbreviation (input) CR :: pychar where "CR \<equiv> 13"
abbreviation (input) COLON :: pychar where "COLON \<equiv> 58"
abbreviation (input) SLASH :: pychar where "SLASH \<equiv> 47"
abbreviation (input) UNDERSCORE :: pychar where "UNDERSCORE \<equiv> 95"

text \<open>
  The code points that \<open>str.strip()\<close> removes (those for which \<open>str.isspace\<close> holds):
  U+0009..U+000D, U+001C..U+0020, U+0085, U+00A0, U+1680, U+2000..U+200A, U+2028, U+2029,
  U+202F, U+205F, U+3000.
\<close>

definition is_space :: "pychar \<Rightarrow> bool" where
  "is_space c = ((9 \<le> c \<and> c \<le> 13) \<or> (28 \<le> c \<and> c \<le> 32) \<or> c = 133 \<or> c = 160
     \<or> c = 5760 \<or> (8192 \<le> c \<and> c \<le> 8202) \<or> c = 8232 \<or> c = 8233 \<or> c = 8239
     \<or> c = 8287 \<or> c = 12288)"

definition py_strip :: "pystr \<Rightarrow> pystr" where
  "py_strip s = rev (dropWhile is_space (rev (dropWhile is_space s)))"

text \<open>\<open>s.split(c)\<close> for a one-character separator: \<open>"".split(c)\<close> is \<open>[""]\<close>.\<close>

fun py_split :: "pychar \<Rightarrow> pystr \<Rightarrow> pystr list" where
  "py_split c [] = [[]]"
| "py_split c (x # xs) =
     (if x = c then [] # py_split c xs
      else (case py_split c xs of [] \<Rightarrow> [[x]] | l # ls \<Rightarrow> (x # l) # ls))"

text \<open>\<open>s.split(c, 1)\<close>: at most one split, at the first occurrence of \<open>c\<close>.\<close>

definition py_split1 :: "pychar \<Rightarrow> pystr \<Rightarrow> pystr list" where
  "py_split1 c s =
     (if c \<in> set s then [takeWhile (\<lambda>x. x \<noteq> c) s, tl (dropWhile (\<lambda>x. x \<noteq> c) s)] else [s])"

text \<open>\<open>sep.join(xs)\<close> on strings.\<close>

fun py_join :: "pystr \<Rightarrow> pystr list \<Rightarrow> pystr" where
  "py_join sep [] = []"
| "py_join sep [x] = x"
| "py_join sep (x # y # ys) = x @ sep @ py_join sep (y # ys)"

text \<open>\<open>s.replace("/", "_")\<close>.\<close>

definition replace_slash :: "pystr \<Rightarrow> pystr" where
  "replace_slash s = map (\<lambda>c. if c = SLASH then UNDERSCORE else c) s"

text \<open>Decimal digits of a natural number, as \<open>str(n)\<close> prints them.\<close>

fun dec :: "nat \<Rightarrow> pystr" where
  "dec n = (if n < 10 then [48 + n] else dec (n div 10) @ [48 + n mod 10])"

declare dec.simps [simp del]

text \<open>
  The values a decoded JSON payload holds. A dictionary is an association list read with
  \<open>map_of\<close>. JSON floats are not among the values.
\<close>

datatype pyval =
    PNone
  | PBool bool
  | PInt int
  | PStr pystr
  | PList "pyval list"
  | PDict "(pystr \<times> pyval) list"

text \<open>
  The exceptions of the model. \<open>Unmodelled\<close> is not a Python exception: it marks a result
  the model does not compute (the \<open>repr\<close> of a list or dictionary inside an f-string), about
  which nothing is stated.
\<close>

datatype pyerr =
    AttributeError
  | TypeError
  | ValueError
  | UnboundLocalError
  | FileExistsError
  | FileNotFoundError
  | IsADirectoryError
  | NotADirectoryError
  | OSError
  | SourceError
  | Unmodelled

definition bind :: "pyerr + 'a \<Rightarrow> ('a \<Rightarrow> pyerr + 'b) \<Rightarrow> pyerr + 'b" where
  "bind m f = (case m of Inl e \<Rightarrow> Inl e | Inr x \<Rightarrow> f x)"

fun mapM :: "('a \<Rightarrow> pyerr + 'b) \<Rightarrow> 'a list \<Rightarrow> pyerr + 'b list" where
  "mapM f [] = Inr []"
| "mapM f (x # xs) = bind (f x) (\<lambda>y. bind (mapM f xs) (\<lambda>ys. Inr (y # ys)))"

text \<open>Truth value of an object, as \<open>or\<close> and \<open>if\<close> test it.\<close>

fun truthy :: "pyval \<Rightarrow> bool" where
  "truthy PNone = False"
| "truthy (PBool b) = b"
| "truthy (PInt i) = (i \<noteq> 0)"
| "truthy (PStr s) = (s \<noteq> [])"
| "truthy (PList xs) = (xs \<noteq> [])"
| "truthy (PDict kvs) = (kvs \<noteq> [])"

definition py_or :: "pyval \<Rightarrow> pyval \<Rightarrow> pyval" where
  "py_or x y = (if truthy x then x else y)"

text \<open>\<open>d.get(k, dflt)\<close>: only a dictionary has the method.\<close>

fun dict_get :: "pyval \<Rightarrow> pystr \<Rightarrow> pyval \<Rightarrow> pyerr + pyval" where
  "dict_get (PDict kvs) k dflt = Inr (case map_of kvs k of None \<Rightarrow> dflt | Some v \<Rightarrow> v)"
| "dict_get _ k dflt = Inl AttributeError"

text \<open>The elements a \<open>for\<close> loop or a comprehension draws from an object.\<close>

fun py_iter :: "pyval \<Rightarrow> pyerr + pyval list" where
  "py_iter (PList xs) = Inr xs"
| "py_iter (PStr s) = Inr (map (\<lambda>c. PStr [c]) s)"
| "py_iter (PDict kvs) = Inr (map (\<lambda>k. PStr k) (remdups (map fst kvs)))"
| "py_iter _ = Inl TypeError"

text \<open>\<open>f"{x}"\<close>: the text an f-string puts in for \<open>x\<close>.\<close>

fun py_format :: "pyval \<Rightarrow> pyerr + pystr" where
  "py_format (PStr s) = Inr s"
| "py_format PNone = Inr (lit ''None'')"
| "py_format (PBool b) = Inr (if b then lit ''True'' else lit ''False'')"
| "py_format (PInt i) = Inr (if i < 0 then 45 # dec (nat (- i)) else dec (nat i))"
| "py_format (PList xs) = Inl Unmodelled"
| "py_format (PDict kvs) = Inl Unmodelled"

text \<open>An element of the sequence handed to \<open>",".join\<close> must be a \<open>str\<close>.\<close>

fun as_str :: "pyval \<Rightarrow> pyerr + pystr" where
  "as_str (PStr s) = Inr s"
| "as_str _ = Inl TypeError"

section \<open>data_collection.py: the encoder\<close>

definition ARTICLES_PER_SECTION :: nat where "ARTICLES_PER_SECTION = 1000"
definition PAGE_SIZE :: nat where "PAGE_SIZE = 50"

definition SECTIONS :: "(pystr \<times> pystr) list" where
  "SECTIONS = [(lit ''news'', lit ''news''), (lit ''sport'', lit ''sport''),
     (lit ''opinion'', lit ''commentisfree''), (lit ''culture'', lit ''culture'')]"

text \<open>\<open>join_csv(values)\<close>: \<open>",".join(values) if values else ""\<close>.\<close>

definition join_csv :: "pyval list \<Rightarrow> pyerr + pyval" where
  "join_csv values =
     (if values \<noteq> [] then bind (mapM as_str values) (\<lambda>ss. Inr (PStr (py_join (lit '','') ss)))
      else Inr (PStr []))"

text \<open>One entry of \<open>lines\<close>: the f-string \<open>f"KEY: {v}"\<close>, where computing \<open>v\<close> may raise.\<close>

definition fline :: "string \<Rightarrow> pyerr + pyval \<Rightarrow> pyerr + pystr" where
  "fline k v = bind v (\<lambda>x. bind (py_format x) (\<lambda>s. Inr (lit k @ s)))"

text \<open>\<open>tags[0] if tags else None\<close>, for the list of elements of \<open>tags\<close>.\<close>

definition primary_of :: "pyval \<Rightarrow> pyval list \<Rightarrow> pyval" where
  "primary_of tags elems = (if truthy tags then (case elems of [] \<Rightarrow> PNone | t # _ \<Rightarrow> t) else PNone)"

text \<open>\<open>primary_tag.get(k, "") if primary_tag else ""\<close>.\<close>

definition primary_get :: "pyval \<Rightarrow> pystr \<Rightarrow> pyerr + pyval" where
  "primary_get primary_tag k =
     (if truthy primary_tag then dict_get primary_tag k (PStr []) else Inr (PStr []))"

text \<open>
  The local \<open>lines\<close> of \<open>format_article\<close>: the assignments before it in their order, then
  the fourteen f-strings in theirs, so that the first exception raised is the one returned.
\<close>

definition article_lines :: "pyval \<Rightarrow> pyerr + pystr list" where
  "article_lines article =
     bind (dict_get article (lit ''fields'') (PDict [])) (\<lambda>f0.
     let fields = py_or f0 (PDict []) in
     bind (dict_get article (lit ''tags'') (PList [])) (\<lambda>t0.
     let tags = py_or t0 (PList []) in
     bind (dict_get fields (lit ''bodyText'') (PStr [])) (\<lambda>b0.
     let body_text = py_or b0 (PStr []) in
     bind (py_iter tags) (\<lambda>elems.
     bind (mapM (\<lambda>tag. dict_get tag (lit ''id'') (PStr [])) elems) (\<lambda>tag_ids.
     bind (mapM (\<lambda>tag. dict_get tag (lit ''title'') (PStr [])) elems) (\<lambda>tag_titles.
     let primary_tag = primary_of tags elems in
     bind (primary_get primary_tag (lit ''id'')) (\<lambda>primary_id.
     bind (primary_get primary_tag (lit ''title'')) (\<lambda>primary_title.
     bind (primary_get primary_tag (lit ''type'')) (\<lambda>primary_type.
     mapM id
       [fline ''ID: '' (dict_get article (lit ''id'') (PStr [])),
        fline ''SECTION_ID: '' (dict_get article (lit ''sectionId'') (PStr [])),
        fline ''SECTION_NAME: '' (dict_get article (lit ''sectionName'') (PStr [])),
        fline ''WEB_TITLE: '' (dict_get article (lit ''webTitle'') (PStr [])),
        fline ''WEB_URL: '' (dict_get article (lit ''webUrl'') (PStr [])),
        fline ''HEADLINE: '' (dict_get fields (lit ''headline'') (PStr [])),
        fline ''TRAIL_TEXT: '' (dict_get fields (lit ''trailText'') (PStr [])),
        fline ''BYLINE: '' (dict_get fields (lit ''byline'') (PStr [])),
        fline ''BODY_TEXT: '' (Inr body_text),
        fline ''TAGS_IDS: '' (join_csv tag_ids),
        fline ''TAGS_TITLES: '' (join_csv tag_titles),
        fline ''PRIMARY_TAG_ID: '' (Inr primary_id),
        fline ''PRIMARY_TAG_TITLE: '' (Inr primary_title),
        fline ''PRIMARY_TAG_TYPE: '' (Inr primary_type)])))))))))"

definition format_article :: "pyval \<Rightarrow> pyerr + pystr" where
  "format_article article = bind (article_lines article) (\<lambda>lines. Inr (py_join [LF] lines))"

section \<open>Storage\<close>

text \<open>
  A path is its list of components, as \<open>PurePosixPath.parts\<close> gives them: an absolute path
  starts with the component \<open>/\<close> (or \<open>//\<close>). The storage maps a path to a directory, to a
  text file with its stored text, or to a file that cannot be read (no permission, bytes that
  are not UTF-8). The current directory (the empty path) and the root are directories of
  every storage. A file has one path: components \<open>..\<close>, symbolic links and file systems
  that fold case are outside the model. Failures of the operating system other than the ones
  below (a full disk, a name that is too long) are not modelled, and neither is a code point
  that UTF-8 cannot encode.
\<close>

type_synonym path = "pystr list"

datatype node = Dir | File pystr | Unreadable

type_synonym storage = "path \<rightharpoonup> node"

text \<open>
  Reading in text mode translates the line endings \<open>\r\n\<close> and \<open>\r\<close> to \<open>\n\<close>
  (universal newlines); writing on a POSIX system stores the text as it is.
\<close>

fun universal_newlines :: "pystr \<Rightarrow> pystr" where
  "universal_newlines [] = []"
| "universal_newlines [c] = (if c = CR then [LF] else [c])"
| "universal_newlines (c # d # ds) =
     (if c = CR \<and> d = LF then LF # universal_newlines ds
      else if c = CR then LF # universal_newlines (d # ds)
      else c # universal_newlines (d # ds))"

definition read_text :: "storage \<Rightarrow> path \<Rightarrow> pyerr + pystr" where
  "read_text fs p = (case fs p of Some (File s) \<Rightarrow> Inr (universal_newlines s) | _ \<Rightarrow> Inl OSError)"

text \<open>\<open>file_path.parent.name\<close>: the last component of the parent, empty when there is none.\<close>

definition parent_name :: "path \<Rightarrow> pystr" where
  "parent_name p = (if butlast p = [] then [] else last (butlast p))"

fun not_dir :: "node option \<Rightarrow> bool" where
  "not_dir None = False"
| "not_dir (Some Dir) = False"
| "not_dir (Some (File s)) = True"
| "not_dir (Some Unreadable) = True"

text \<open>
  \<open>p / name\<close>: the name is split at its slashes, and its empty components and its
  components \<open>.\<close> are dropped; a name that starts with a slash is absolute and replaces
  \<open>p\<close>. Exactly two leading slashes give the root \<open>//\<close>.
\<close>

definition path_parts :: "pystr \<Rightarrow> path" where
  "path_parts name = filter (\<lambda>c. c \<noteq> [] \<and> c \<noteq> lit ''.'') (py_split SLASH name)"

definition path_root :: "pystr \<Rightarrow> path" where
  "path_root name =
     (if take 2 name = lit ''//'' \<and> take 3 name \<noteq> lit ''///'' then [lit ''//'']
      else if take 1 name = lit ''/'' then [lit ''/'']
      else [])"

definition path_join :: "path \<Rightarrow> pystr \<Rightarrow> path" where
  "path_join p name =
     (if path_root name \<noteq> [] then path_root name @ path_parts name else p @ path_parts name)"

text \<open>A path with a NUL in it is refused by every call that hands it to the system.\<close>

definition has_nul :: "path \<Rightarrow> bool" where
  "has_nul p = list_ex (\<lambda>c. 0 \<in> set c) p"

definition is_dir :: "storage \<Rightarrow> path \<Rightarrow> bool" where
  "is_dir fs p = (p = [] \<or> p = [lit ''/''] \<or> p = [lit ''//''] \<or> fs p = Some Dir)"

text \<open>\<open>p.exists()\<close>: it answers \<open>False\<close> for a path with a NUL instead of raising.\<close>

definition path_exists :: "storage \<Rightarrow> path \<Rightarrow> bool" where
  "path_exists fs p =
     (\<not> has_nul p \<and> (p = [] \<or> p = [lit ''/''] \<or> p = [lit ''//''] \<or> fs p \<noteq> None))"

text \<open>
  \<open>p.write_text(s, encoding='utf-8')\<close>: the file is created, or replaced, in a parent
  directory that exists; it raises for a directory, for a file among the ancestors and for a
  missing parent directory.
\<close>

definition write_text :: "storage \<Rightarrow> path \<Rightarrow> pystr \<Rightarrow> pyerr + storage" where
  "write_text fs p s =
     (if has_nul p then Inl ValueError
      else if is_dir fs p then Inl IsADirectoryError
      else if list_ex (\<lambda>n. not_dir (fs (take n p))) [1..<length p] then Inl NotADirectoryError
      else if \<not> is_dir fs (butlast p) then Inl FileNotFoundError
      else Inr (fs(p \<mapsto> File s)))"

text \<open>
  \<open>out_dir.mkdir(parents=True, exist_ok=True)\<close>: an existing directory is accepted, missing
  ancestors are created, and a file in the way raises.
\<close>

definition mkdir_parents :: "storage \<Rightarrow> path \<Rightarrow> pyerr + storage" where
  "mkdir_parents fs d =
     (if has_nul d then Inl ValueError
      else if list_ex (\<lambda>n. not_dir (fs (take n d))) [1..<length d] then Inl NotADirectoryError
      else if not_dir (fs d) then Inl FileExistsError
      else Inr (\<lambda>p. if p \<in> set (map (\<lambda>n. take n d) [1..<Suc (length d)]) \<and> fs p = None
                     then Some Dir else fs p))"

section \<open>sensing.py: the decoder\<close>

text \<open>
  The loop over \<open>lines\<close>. \<open>key, value = line.split(':', 1)\<close> raises \<open>ValueError\<close> unless
  the split has exactly two parts.
\<close>

fun parse_lines :: "(pystr \<rightharpoonup> pystr) \<Rightarrow> pystr list \<Rightarrow> pyerr + (pystr \<rightharpoonup> pystr)" where
  "parse_lines article_data [] = Inr article_data"
| "parse_lines article_data (line # lines) =
     (if COLON \<in> set line then
        (case py_split1 COLON line of
           [key, value] \<Rightarrow> parse_lines (article_data(py_strip key \<mapsto> py_strip value)) lines
         | _ \<Rightarrow> Inl ValueError)
      else parse_lines article_data lines)"

text \<open>
  \<open>parse_article(file_path)\<close>: \<open>Inl\<close> is an exception that leaves the function,
  \<open>Inr None\<close> is the value \<open>None\<close> returned after a failed read (the message printed
  there is not modelled), \<open>Inr (Some d)\<close> is the dictionary returned.
\<close>

definition parse_article :: "storage \<Rightarrow> path \<Rightarrow> pyerr + (pystr \<rightharpoonup> pystr) option" where
  "parse_article fs file_path =
     (let article_data = [lit ''label'' \<mapsto> parent_name file_path] in
      case read_text fs file_path of
        Inl e \<Rightarrow> Inr None
      | Inr content \<Rightarrow>
          bind (parse_lines article_data (py_split LF (py_strip content)))
            (\<lambda>d. Inr (Some d)))"

section \<open>data_collection.py: the collection loop\<close>

text \<open>
  The module constants \<open>ARTICLES_PER_SECTION\<close> and \<open>PAGE_SIZE\<close> are read by
  \<open>collect_section\<close> at each use; they are passed as a configuration, so that a property can
  speak of another quota or page size than the ones the module sets.
\<close>

record config =
  articles_per_section :: nat
  page_size :: nat

definition module_config :: config where
  "module_config = \<lparr>articles_per_section = ARTICLES_PER_SECTION, page_size = PAGE_SIZE\<rparr>"

text \<open>
  What \<open>collect_section\<close> does to the world, in order: a request to the content source for
  a page, a write of a file, a sleep of \<open>SLEEP_BETWEEN_CALLS\<close>. Printed messages are left
  out.
\<close>

datatype event = Request nat | Write path | Sleep

text \<open>
  The content source: \<open>Content(...)\<close>, \<open>get_content_response()\<close> and \<open>get_results\<close>
  together. Its answer to a request for a section, page size and page may depend on all
  that happened before; it is the list of results, or an exception.
\<close>

type_synonym source = "event list \<Rightarrow> pystr \<Rightarrow> nat \<Rightarrow> nat \<Rightarrow> pyerr + pyval list"

record cstate =
  files :: storage
  trace :: "event list"
  count :: nat
  page :: nat

datatype ctl = Continue cstate | Break cstate | Raise pyerr cstate

datatype outcome = Returned cstate | Raised pyerr cstate | Running cstate

text \<open>
  \<open>for article in results: if count >= ARTICLES_PER_SECTION: break\<close>: the loop has no other
  statement in its body; what it leaves is the binding of \<open>article\<close>.
\<close>

fun for_article :: "nat \<Rightarrow> nat \<Rightarrow> pyval option \<Rightarrow> pyval list \<Rightarrow> pyval option" where
  "for_article quota cnt article [] = article"
| "for_article quota cnt article (a # results) =
     (if cnt \<ge> quota then Some a else for_article quota cnt (Some a) results)"

text \<open>
  \<open>article.get("id", "").replace("/", "_") or f"{target_name}_{page}_{count}"\<close>: only a
  \<open>str\<close> has \<open>replace\<close>.
\<close>

definition art_id_of :: "pystr \<Rightarrow> nat \<Rightarrow> nat \<Rightarrow> pyval \<Rightarrow> pyerr + pystr" where
  "art_id_of target_name pg cnt article =
     bind (dict_get article (lit ''id'') (PStr [])) (\<lambda>v.
       case v of
         PStr s \<Rightarrow> Inr (if replace_slash s \<noteq> [] then replace_slash s
                        else target_name @ lit ''_'' @ dec pg @ lit ''_'' @ dec cnt)
       | _ \<Rightarrow> Inl AttributeError)"

text \<open>
  One pass through the body of \<open>while count < ARTICLES_PER_SECTION\<close>. The statements from
  \<open>art_id = ...\<close> on stand after the \<open>for\<close> loop, at the level of the \<open>while\<close> body, so
  \<open>continue\<close> and \<open>break\<close> there act on the \<open>while\<close> loop.
\<close>

definition loop_body :: "config \<Rightarrow> source \<Rightarrow> pystr \<Rightarrow> pystr \<Rightarrow> path \<Rightarrow> cstate \<Rightarrow> ctl" where
  "loop_body cfg src target_name gurdian_id out_dir s =
     (let s1 = s\<lparr>trace := trace s @ [Request (page s)]\<rparr> in
      case src (trace s) gurdian_id (page_size cfg) (page s) of
        Inl e \<Rightarrow> Raise e s1
      | Inr results \<Rightarrow>
          if results = [] then Break s1
          else
            (case for_article (articles_per_section cfg) (count s1) None results of
               None \<Rightarrow> Raise UnboundLocalError s1
             | Some article \<Rightarrow>
                 (case art_id_of target_name (page s1) (count s1) article of
                    Inl e \<Rightarrow> Raise e s1
                  | Inr art_id \<Rightarrow>
                      let out_path = path_join out_dir (art_id @ lit ''.txt'') in
                      if path_exists (files s1) out_path then Continue s1
                      else
                        (case format_article article of
                           Inl e \<Rightarrow> Raise e s1
                         | Inr formatted_content \<Rightarrow>
                             (case write_text (files s1) out_path formatted_content of
                                Inl e \<Rightarrow> Raise e s1
                              | Inr written \<Rightarrow>
                                  let s2 = s1\<lparr>files := written,
                                             trace := trace s1 @ [Write out_path],
                                             count := count s1 + 1\<rparr> in
                                  if count s2 \<ge> articles_per_section cfg then Break s2
                                  else Continue (s2\<lparr>page := page s2 + 1,
                                                    trace := trace s2 @ [Sleep]\<rparr>))))))"

text \<open>
  The \<open>while\<close> loop, with fuel: the number of passes through the body it may still make.
  \<open>Running\<close> is the state in which the fuel ran out with the loop condition still true.
\<close>

fun while_loop :: "nat \<Rightarrow> config \<Rightarrow> source \<Rightarrow> pystr \<Rightarrow> pystr \<Rightarrow> path \<Rightarrow> cstate \<Rightarrow> outcome" where
  "while_loop 0 cfg src target_name gurdian_id out_dir s =
     (if count s < articles_per_section cfg then Running s else Returned s)"
| "while_loop (Suc fuel) cfg src target_name gurdian_id out_dir s =
     (if count s < articles_per_section cfg then
        (case loop_body cfg src target_name gurdian_id out_dir s of
           Continue s' \<Rightarrow> while_loop fuel cfg src target_name gurdian_id out_dir s'
         | Break s' \<Rightarrow> Returned s'
         | Raise e s' \<Rightarrow> Raised e s')
      else Returned s)"

definition collect_section ::
  "nat \<Rightarrow> config \<Rightarrow> source \<Rightarrow> storage \<Rightarrow> path \<Rightarrow> pystr \<Rightarrow> pystr \<Rightarrow> outcome" where
  "collect_section fuel cfg src fs base target_name gurdian_id =
     (let out_dir = path_join base target_name in
      case mkdir_parents fs out_dir of
        Inl e \<Rightarrow> Raised e \<lparr>files = fs, trace = [], count = 0, page = 1\<rparr>
      | Inr fs' \<Rightarrow>
          while_loop fuel cfg src target_name gurdian_id out_dir
            \<lparr>files = fs', trace = [], count = 0, page = 1\<rparr>)"

section \<open>The shape of an article object\<close>

text \<open>
  The content source returns articles of this shape: the five top-level entries, the
  entries of the nested \<open>fields\<close> mapping and the \<open>id\<close>, \<open>title\<close> and \<open>type\<close> of
  a tag are strings when present; \<open>fields\<close> is a mapping, \<open>tags\<close> a sequence of tag
  mappings. An entry may be absent; \<open>fields\<close>, \<open>tags\<close> and \<open>bodyText\<close> may be null.
\<close>

fun optional_str :: "pyval option \<Rightarrow> bool" where
  "optional_str None = True"
| "optional_str (Some (PStr s)) = True"
| "optional_str (Some _) = False"

fun well_shaped_tag :: "pyval \<Rightarrow> bool" where
  "well_shaped_tag (PDict d) =
     (optional_str (map_of d (lit ''id'')) \<and> optional_str (map_of d (lit ''title''))
      \<and> optional_str (map_of d (lit ''type'')))"
| "well_shaped_tag _ = False"

fun well_shaped_fields :: "pyval option \<Rightarrow> bool" where
  "well_shaped_fields None = True"
| "well_shaped_fields (Some PNone) = True"
| "well_shaped_fields (Some (PDict f)) =
     (optional_str (map_of f (lit ''headline'')) \<and> optional_str (map_of f (lit ''trailText''))
      \<and> optional_str (map_of f (lit ''byline''))
      \<and> (map_of f (lit ''bodyText'') = Some PNone \<or> optional_str (map_of f (lit ''bodyText''))))"
| "well_shaped_fields (Some _) = False"

fun well_shaped_tags :: "pyval option \<Rightarrow> bool" where
  "well_shaped_tags None = True"
| "well_shaped_tags (Some PNone) = True"
| "well_shaped_tags (Some (PList ts)) = list_all well_shaped_tag ts"
| "well_shaped_tags (Some _) = False"

definition well_shaped :: "(pystr \<times> pyval) list \<Rightarrow> bool" where
  "well_shaped kvs =
     (optional_str (map_of kvs (lit ''id'')) \<and> optional_str (map_of kvs (lit ''sectionId''))
      \<and> optional_str (map_of kvs (lit ''sectionName''))
      \<and> optional_str (map_of kvs (lit ''webTitle''))
      \<and> optional_str (map_of kvs (lit ''webUrl''))
      \<and> well_shaped_fields (map_of kvs (lit ''fields''))
      \<and> well_shaped_tags (map_of kvs (lit ''tags'')))"

text \<open>
  The field values of an article, as the data model reads them: the string stored under a
  key, the empty string when there is none; the nested mapping and the tag sequence, empty
  when absent or null; the first tag's entry, empty when there is no tag.
\<close>

definition str_field :: "(pystr \<times> pyval) list \<Rightarrow> pystr \<Rightarrow> pystr" where
  "str_field d k = (case map_of d k of Some (PStr s) \<Rightarrow> s | _ \<Rightarrow> [])"

definition fields_of :: "(pystr \<times> pyval) list \<Rightarrow> (pystr \<times> pyval) list" where
  "fields_of kvs = (case map_of kvs (lit ''fields'') of Some (PDict f) \<Rightarrow> f | _ \<Rightarrow> [])"

definition tags_of :: "(pystr \<times> pyval) list \<Rightarrow> pyval list" where
  "tags_of kvs = (case map_of kvs (lit ''tags'') of Some (PList ts) \<Rightarrow> ts | _ \<Rightarrow> [])"

fun tag_field :: "pystr \<Rightarrow> pyval \<Rightarrow> pystr" where
  "tag_field k (PDict d) = str_field d k"
| "tag_field k _ = []"

definition primary_field :: "pystr \<Rightarrow> pyval list \<Rightarrow> pystr" where
  "primary_field k ts = (case ts of [] \<Rightarrow> [] | t # _ \<Rightarrow> tag_field k t)"

text \<open>
  The fourteen keys of a record, and the value the data model gives each of them: tag lists
  as their comma-joined text.
\<close>

definition record_keys :: "string list" where
  "record_keys = [''ID'', ''SECTION_ID'', ''SECTION_NAME'', ''WEB_TITLE'', ''WEB_URL'',
     ''HEADLINE'', ''TRAIL_TEXT'', ''BYLINE'', ''BODY_TEXT'', ''TAGS_IDS'', ''TAGS_TITLES'',
     ''PRIMARY_TAG_ID'', ''PRIMARY_TAG_TITLE'', ''PRIMARY_TAG_TYPE'']"

definition field_values :: "(pystr \<times> pyval) list \<Rightarrow> pystr list" where
  "field_values kvs =
     [str_field kvs (lit ''id''),
      str_field kvs (lit ''sectionId''),
      str_field kvs (lit ''sectionName''),
      str_field kvs (lit ''webTitle''),
      str_field kvs (lit ''webUrl''),
      str_field (fields_of kvs) (lit ''headline''),
      str_field (fields_of kvs) (lit ''trailText''),
      str_field (fields_of kvs) (lit ''byline''),
      str_field (fields_of kvs) (lit ''bodyText''),
      py_join (lit '','') (map (tag_field (lit ''id'')) (tags_of kvs)),
      py_join (lit '','') (map (tag_field (lit ''title'')) (tags_of kvs)),
      primary_field (lit ''id'') (tags_of kvs),
      primary_field (lit ''title'') (tags_of kvs),
      primary_field (lit ''type'') (tags_of kvs)]"

section \<open>The decoder as the specification words it\<close>

text \<open>
  The lines of the text are its pieces between line feeds. Every line that contains a colon
  gives one pair: the text before the first colon and the text after it, both trimmed.
  Lines without a colon give nothing.
\<close>

definition line_pairs :: "pystr list \<Rightarrow> (pystr \<times> pystr) list" where
  "line_pairs ls =
     map (\<lambda>line. (py_strip (takeWhile (\<lambda>c. c \<noteq> COLON) line),
                   py_strip (tl (dropWhile (\<lambda>c. c \<noteq> COLON) line))))
       (filter (\<lambda>line. COLON \<in> set line) ls)"

text \<open>
  The mapping holds the pairs, a later pair replacing an earlier one with the same key, over
  the entry \<open>label\<close> that the decoder starts from.
\<close>

definition decode_spec :: "pystr \<Rightarrow> pystr \<Rightarrow> (pystr \<rightharpoonup> pystr)" where
  "decode_spec label text =
     [lit ''label'' \<mapsto> label] ++ map_of (rev (line_pairs (py_split LF text)))"

text \<open>The entry under a key in what \<open>parse_article\<close> returned, if it returned a mapping.\<close>

definition decoded_entry :: "pyerr + (pystr \<rightharpoonup> pystr) option \<Rightarrow> pystr \<Rightarrow> pystr option" where
  "decoded_entry r k = (case r of Inr (Some d) \<Rightarrow> d k | _ \<Rightarrow> None)"

section \<open>Reading an outcome\<close>

fun outcome_state :: "outcome \<Rightarrow> cstate" where
  "outcome_state (Returned s) = s"
| "outcome_state (Raised e s) = s"
| "outcome_state (Running s) = s"

fun returned :: "outcome \<Rightarrow> bool" where
  "returned (Returned s) = True"
| "returned _ = False"

fun ctl_state :: "ctl \<Rightarrow> cstate" where
  "ctl_state (Continue s) = s"
| "ctl_state (Break s) = s"
| "ctl_state (Raise e s) = s"

fun ctl_raises :: "ctl \<Rightarrow> bool" where
  "ctl_raises (Raise e s) = True"
| "ctl_raises _ = False"

section \<open>Values that survive the line format\<close>

text \<open>
  A value is clean when it holds no line feed and no carriage return and trimming leaves it as
  it is. A key is clean when, in addition, it holds no colon.
\<close>

definition clean :: "pystr \<Rightarrow> bool" where
  "clean v = (LF \<notin> set v \<and> CR \<notin> set v \<and> py_strip v = v)"

definition clean_key :: "pystr \<Rightarrow> bool" where
  "clean_key k = (COLON \<notin> set k \<and> LF \<notin> set k \<and> CR \<notin> set k \<and> py_strip k = k)"

definition record_lines :: "(pystr \<times> pyval) list \<Rightarrow> pystr list" where
  "record_lines kvs =
     map (\<lambda>(k, v). k @ lit '': '' @ v) (zip (map lit record_keys) (field_values kvs))"

section \<open>Passes of the loop\<close>





section \<open>Example inputs\<close>







definition article_no_fields :: "(pystr \<times> pyval) list" where
  "article_no_fields = [(lit ''id'', PStr (lit ''sport/2020/x''))]"

definition article_null_fields :: "(pystr \<times> pyval) list" where
  "article_null_fields = [(lit ''id'', PStr (lit ''sport/2020/x'')), (lit ''fields'', PNone)]"

definition path_x :: path where
  "path_x = [lit ''data'', lit ''news'', lit ''x.txt'']"

definition text_sample :: pystr where
  "text_sample = py_join [LF] [lit ''ID: a/b'', lit ''noise'', lit ''  SECTION_NAME :  Sport  '',
     lit ''URL: http://x'', lit ''ID: second'']"



definition article_id :: "string \<Rightarrow> pyval" where
  "article_id i = PDict [(lit ''id'', PStr (lit i))]"

definition source_one_page :: source where
  "source_one_page tr gurdian_id psize pg =
     (if pg = 1 then Inr [article_id ''news/a'', article_id ''news/b''] else Inr [])"

definition source_two_pages :: source where
  "source_two_pages tr gurdian_id psize pg =
     (if pg = 1 then Inr [article_id ''a'', article_id ''b'', article_id ''c'']
      else if pg = 2 then Inr [article_id ''d'', article_id ''e'', article_id ''f'']
      else Inr [])"

definition small_config :: config where
  "small_config = \<lparr>articles_per_section = 2, page_size = 3\<rparr>"

definition news_file :: "string \<Rightarrow> path" where
  "news_file n = [lit ''data'', lit ''news'', lit n]"


text \<open>
  A first run of the collector on an empty storage, with the constants of the module, against
  a source that has one page of two articles; and a storage in which the file of that page's
  last article already exists.
\<close>

definition first_run :: outcome where
  "first_run = collect_section (Suc (Suc 0)) module_config source_one_page Map.empty [lit ''data'']
     (lit ''news'') (lit ''news'')"

definition stored_after_first_run :: storage where
  "stored_after_first_run = files (outcome_state first_run)"

definition storage_existing :: storage where
  "storage_existing = [[lit ''data''] \<mapsto> Dir, [lit ''data'', lit ''news''] \<mapsto> Dir,
     news_file ''news_b.txt'' \<mapsto> File (lit ''ID: news/b'')]"


definition article_full :: "(pystr \<times> pyval) list" where
  "article_full =
     [(lit ''id'', PStr (lit ''sport/2020/x'')), (lit ''sectionId'', PStr (lit ''sport'')),
      (lit ''sectionName'', PStr (lit ''Sport'')), (lit ''webTitle'', PStr (lit ''A title: part 2'')),
      (lit ''fields'', PDict [(lit ''headline'', PStr (lit ''Head'')), (lit ''bodyText'', PStr (lit ''Some body text.''))]),
      (lit ''tags'', PList [PDict [(lit ''id'', PStr (lit ''t1'')), (lit ''title'', PStr (lit ''T1'')), (lit ''type'', PStr (lit ''keyword''))],
                            PDict [(lit ''id'', PStr (lit ''t2'')), (lit ''title'', PStr (lit ''T2''))]])]"

definition encoded_full :: pystr where
  "encoded_full = py_join [LF]
     [lit ''ID: sport/2020/x'', lit ''SECTION_ID: sport'', lit ''SECTION_NAME: Sport'',
      lit ''WEB_TITLE: A title: part 2'', lit ''WEB_URL: '', lit ''HEADLINE: Head'', lit ''TRAIL_TEXT: '',
      lit ''BYLINE: '', lit ''BODY_TEXT: Some body text.'', lit ''TAGS_IDS: t1,t2'',
      lit ''TAGS_TITLES: T1,T2'', lit ''PRIMARY_TAG_ID: t1'', lit ''PRIMARY_TAG_TITLE: T1'',
      lit ''PRIMARY_TAG_TYPE: keyword'']"

definition article_padded_title :: "(pystr \<times> pyval) list" where
  "article_padded_title = [(lit ''id'', PStr (lit ''sport/1'')), (lit ''webTitle'', PStr (lit '' x''))]"

definition encoded_padded_title :: pystr where
  "encoded_padded_title = py_join [LF]
     [lit ''ID: sport/1'', lit ''SECTION_ID: '', lit ''SECTION_NAME: '',
      lit ''WEB_TITLE:  x'', lit ''WEB_URL: '', lit ''HEADLINE: '', lit ''TRAIL_TEXT: '',
      lit ''BYLINE: '', lit ''BODY_TEXT: '', lit ''TAGS_IDS: '', lit ''TAGS_TITLES: '',
      lit ''PRIMARY_TAG_ID: '', lit ''PRIMARY_TAG_TITLE: '', lit ''PRIMARY_TAG_TYPE: '']"






section \<open>Basic facts\<close>

lemma bind_Inr [simp]: "bind (Inr x) f = f x"
  by (simp add: bind_def)

lemma bind_Inl [simp]: "bind (Inl e) f = Inl e"
  by (simp add: bind_def)




section \<open>The encoder: tags and the primary tag\<close>





section \<open>The encoder on well-shaped articles\<close>

lemma optional_str_get:
  "optional_str (map_of d k) \<Longrightarrow> dict_get (PDict d) k (PStr []) = Inr (PStr (str_field d k))"
  by (cases "map_of d k" rule: optional_str.cases) (simp_all add: str_field_def)

lemma fline_str: "fline k (Inr (PStr s)) = Inr (lit k @ s)"
  by (simp add: fline_def)

lemma tag_get:
  assumes "well_shaped_tag t" and "k = lit ''id'' \<or> k = lit ''title'' \<or> k = lit ''type''"
  shows "dict_get t k (PStr []) = Inr (PStr (tag_field k t))"
  using assms by (cases t) (auto simp del: dict_get.simps simp: optional_str_get)

lemma mapM_tag_get:
  assumes "list_all well_shaped_tag ts" and "k = lit ''id'' \<or> k = lit ''title'' \<or> k = lit ''type''"
  shows "mapM (\<lambda>tag. dict_get tag k (PStr [])) ts = Inr (map (\<lambda>t. PStr (tag_field k t)) ts)"
  using assms(1)
proof (induction ts)
  case Nil
  then show ?case by simp
next
  case (Cons t ts)
  then show ?case using tag_get [OF _ assms(2), of t] by simp
qed

lemma mapM_as_str: "mapM as_str (map PStr ss) = Inr ss"
  by (induction ss) simp_all

lemma join_csv_strs:
  "join_csv (map (\<lambda>t. PStr (f t)) ts) = Inr (PStr (py_join (lit '','') (map f ts)))"
proof -
  have "map (\<lambda>t. PStr (f t)) ts = map PStr (map f ts)" by simp
  then show ?thesis using mapM_as_str [of "map f ts"] by (simp add: join_csv_def del: map_map)
qed

lemma primary_get_tag:
  assumes "well_shaped_tag t" and "k = lit ''id'' \<or> k = lit ''title'' \<or> k = lit ''type''"
  shows "primary_get t k = Inr (PStr (tag_field k t))"
proof (cases t)
  case (PDict d)
  show ?thesis
  proof (cases "d = []")
    case True
    then show ?thesis using PDict by (simp add: primary_get_def str_field_def)
  next
    case False
    then show ?thesis using PDict tag_get [OF assms] by (simp add: primary_get_def)
  qed
qed (use assms in simp_all)

lemma primary_get_expected:
  assumes "list_all well_shaped_tag ts" and "k = lit ''id'' \<or> k = lit ''title'' \<or> k = lit ''type''"
  shows "primary_get (case ts of [] \<Rightarrow> PNone | t # _ \<Rightarrow> t) k = Inr (PStr (primary_field k ts))"
  using assms primary_get_tag [OF _ assms(2)]
  by (cases ts) (auto simp: primary_field_def primary_get_def)

lemma article_lines_tags_part:
  assumes "well_shaped_tags (map_of kvs (lit ''tags''))"
  shows "\<exists>tags. dict_get (PDict kvs) (lit ''tags'') (PList []) = Inr tags
     \<and> py_iter (py_or tags (PList [])) = Inr (tags_of kvs)
     \<and> primary_of (py_or tags (PList [])) (tags_of kvs)
         = (case tags_of kvs of [] \<Rightarrow> PNone | t # _ \<Rightarrow> t)
     \<and> list_all well_shaped_tag (tags_of kvs)"
  using assms
  by (cases "map_of kvs (lit ''tags'')" rule: well_shaped_tags.cases)
     (auto simp: py_or_def tags_of_def primary_of_def split: list.splits)

lemma article_lines_fields_part:
  assumes "well_shaped_fields (map_of kvs (lit ''fields''))"
  shows "\<exists>f0. dict_get (PDict kvs) (lit ''fields'') (PDict []) = Inr f0
     \<and> py_or f0 (PDict []) = PDict (fields_of kvs)
     \<and> optional_str (map_of (fields_of kvs) (lit ''headline''))
     \<and> optional_str (map_of (fields_of kvs) (lit ''trailText''))
     \<and> optional_str (map_of (fields_of kvs) (lit ''byline''))
     \<and> (\<exists>b0. dict_get (PDict (fields_of kvs)) (lit ''bodyText'') (PStr []) = Inr b0 \<and>
           py_or b0 (PStr []) = PStr (str_field (fields_of kvs) (lit ''bodyText'')))"
  using assms
  by (cases "map_of kvs (lit ''fields'')" rule: well_shaped_fields.cases)
     (auto simp: py_or_def fields_of_def str_field_def split: option.splits pyval.splits)

lemma article_lines_well_shaped:
  assumes "well_shaped kvs"
  shows "article_lines (PDict kvs)
    = Inr (map (\<lambda>(k, v). lit k @ lit '': '' @ v) (zip record_keys (field_values kvs)))"
proof -
  from assms have ws: "optional_str (map_of kvs (lit ''id''))"
      "optional_str (map_of kvs (lit ''sectionId''))"
      "optional_str (map_of kvs (lit ''sectionName''))"
      "optional_str (map_of kvs (lit ''webTitle''))"
      "optional_str (map_of kvs (lit ''webUrl''))"
      "well_shaped_fields (map_of kvs (lit ''fields''))"
      "well_shaped_tags (map_of kvs (lit ''tags''))"
    by (simp_all add: well_shaped_def)
  from article_lines_fields_part [OF ws(6)] obtain f0 b0 where
    f: "dict_get (PDict kvs) (lit ''fields'') (PDict []) = Inr f0"
     "py_or f0 (PDict []) = PDict (fields_of kvs)"
     "optional_str (map_of (fields_of kvs) (lit ''headline''))"
     "optional_str (map_of (fields_of kvs) (lit ''trailText''))"
     "optional_str (map_of (fields_of kvs) (lit ''byline''))"
     "dict_get (PDict (fields_of kvs)) (lit ''bodyText'') (PStr []) = Inr b0"
     "py_or b0 (PStr []) = PStr (str_field (fields_of kvs) (lit ''bodyText''))"
    by blast
  from article_lines_tags_part [OF ws(7)] obtain tags where
    t: "dict_get (PDict kvs) (lit ''tags'') (PList []) = Inr tags"
     "py_iter (py_or tags (PList [])) = Inr (tags_of kvs)"
     "primary_of (py_or tags (PList [])) (tags_of kvs)
        = (case tags_of kvs of [] \<Rightarrow> PNone | t # _ \<Rightarrow> t)"
     "list_all well_shaped_tag (tags_of kvs)"
    by blast
  have "article_lines (PDict kvs) =
    Inr [lit ''ID: '' @ str_field kvs (lit ''id''),
      lit ''SECTION_ID: '' @ str_field kvs (lit ''sectionId''),
      lit ''SECTION_NAME: '' @ str_field kvs (lit ''sectionName''),
      lit ''WEB_TITLE: '' @ str_field kvs (lit ''webTitle''),
      lit ''WEB_URL: '' @ str_field kvs (lit ''webUrl''),
      lit ''HEADLINE: '' @ str_field (fields_of kvs) (lit ''headline''),
      lit ''TRAIL_TEXT: '' @ str_field (fields_of kvs) (lit ''trailText''),
      lit ''BYLINE: '' @ str_field (fields_of kvs) (lit ''byline''),
      lit ''BODY_TEXT: '' @ str_field (fields_of kvs) (lit ''bodyText''),
      lit ''TAGS_IDS: '' @ py_join (lit '','') (map (tag_field (lit ''id'')) (tags_of kvs)),
      lit ''TAGS_TITLES: '' @ py_join (lit '','') (map (tag_field (lit ''title'')) (tags_of kvs)),
      lit ''PRIMARY_TAG_ID: '' @ primary_field (lit ''id'') (tags_of kvs),
      lit ''PRIMARY_TAG_TITLE: '' @ primary_field (lit ''title'') (tags_of kvs),
      lit ''PRIMARY_TAG_TYPE: '' @ primary_field (lit ''type'') (tags_of kvs)]"
    unfolding article_lines_def Let_def
    by (simp only: f t bind_Inr mapM_tag_get [OF t(4)] primary_get_expected [OF t(4)]
        optional_str_get [OF ws(1)] optional_str_get [OF ws(2)] optional_str_get [OF ws(3)]
        optional_str_get [OF ws(4)] optional_str_get [OF ws(5)]
        optional_str_get [OF f(3)] optional_str_get [OF f(4)] optional_str_get [OF f(5)]
        join_csv_strs fline_str mapM.simps id_apply simp_thms)
  then show ?thesis
    by (simp add: record_keys_def field_values_def lit_def)
qed

lemma str_field_absent: "map_of d k = None \<Longrightarrow> str_field d k = []"
  by (simp add: str_field_def)

text \<open>
  Claim C8. Every well-shaped article object encodes: \<open>format_article\<close> returns the
  fourteen lines joined by line feeds and raises nothing, also when the \<open>fields\<close> mapping
  is absent or null; and each line derived from \<open>fields\<close> carries the empty string when
  its key is absent from the mapping.
\<close>

theorem encoder_total_on_missing_data:
  assumes "well_shaped kvs"
  shows "\<exists>ls. article_lines (PDict kvs) = Inr ls
    \<and> format_article (PDict kvs) = Inr (py_join [LF] ls) \<and> length ls = 14
    \<and> (map_of (fields_of kvs) (lit ''headline'') = None \<longrightarrow> ls ! 5 = lit ''HEADLINE: '')
    \<and> (map_of (fields_of kvs) (lit ''trailText'') = None \<longrightarrow> ls ! 6 = lit ''TRAIL_TEXT: '')
    \<and> (map_of (fields_of kvs) (lit ''byline'') = None \<longrightarrow> ls ! 7 = lit ''BYLINE: '')
    \<and> (map_of (fields_of kvs) (lit ''bodyText'') = None \<longrightarrow> ls ! 8 = lit ''BODY_TEXT: '')
    \<and> (map_of kvs (lit ''fields'') = None \<or> map_of kvs (lit ''fields'') = Some PNone
        \<longrightarrow> fields_of kvs = [])"
proof -
  let ?ls = "map (\<lambda>(k, v). lit k @ lit '': '' @ v) (zip record_keys (field_values kvs))"
  have a: "article_lines (PDict kvs) = Inr ?ls"
    by (rule article_lines_well_shaped [OF assms])
  have b: "format_article (PDict kvs) = Inr (py_join [LF] ?ls)"
    by (simp add: format_article_def a)
  have c: "length ?ls = 14"
    by (simp add: record_keys_def field_values_def)
  have d: "map_of (fields_of kvs) (lit ''headline'') = None \<longrightarrow> ?ls ! 5 = lit ''HEADLINE: ''"
    by (simp add: record_keys_def field_values_def str_field_absent) (simp add: lit_def)
  have e: "map_of (fields_of kvs) (lit ''trailText'') = None \<longrightarrow> ?ls ! 6 = lit ''TRAIL_TEXT: ''"
    by (simp add: record_keys_def field_values_def str_field_absent) (simp add: lit_def)
  have f: "map_of (fields_of kvs) (lit ''byline'') = None \<longrightarrow> ?ls ! 7 = lit ''BYLINE: ''"
    by (simp add: record_keys_def field_values_def str_field_absent) (simp add: lit_def)
  have g: "map_of (fields_of kvs) (lit ''bodyText'') = None \<longrightarrow> ?ls ! 8 = lit ''BODY_TEXT: ''"
    by (simp add: record_keys_def field_values_def str_field_absent) (simp add: lit_def)
  have h: "map_of kvs (lit ''fields'') = None \<or> map_of kvs (lit ''fields'') = Some PNone
        \<longrightarrow> fields_of kvs = []"
    by (auto simp: fields_of_def)
  show ?thesis
    apply (rule exI [of _ ?ls])
    apply (intro conjI)
           apply (rule a)
          apply (rule b)
         apply (rule c)
        apply (rule d)
       apply (rule e)
      apply (rule f)
     apply (rule g)
    apply (rule h)
    done
qed

theorem encoder_total_on_missing_data_witness:
  "well_shaped article_no_fields \<and> well_shaped article_null_fields
   \<and> fields_of article_no_fields = [] \<and> fields_of article_null_fields = []
   \<and> (\<exists>ls. format_article (PDict article_no_fields) = Inr (py_join [LF] ls) \<and> length ls = 14
        \<and> ls ! 5 = lit ''HEADLINE: '' \<and> ls ! 6 = lit ''TRAIL_TEXT: ''
        \<and> ls ! 7 = lit ''BYLINE: '' \<and> ls ! 8 = lit ''BODY_TEXT: '')
   \<and> (\<exists>ls. format_article (PDict article_null_fields) = Inr (py_join [LF] ls) \<and> length ls = 14
        \<and> ls ! 5 = lit ''HEADLINE: '' \<and> ls ! 6 = lit ''TRAIL_TEXT: ''
        \<and> ls ! 7 = lit ''BYLINE: '' \<and> ls ! 8 = lit ''BODY_TEXT: '')"
proof -
  have w1: "well_shaped article_no_fields"
    by (simp add: well_shaped_def article_no_fields_def lit_def)
  have w2: "well_shaped article_null_fields"
    by (simp add: well_shaped_def article_null_fields_def lit_def)
  have f1: "map_of article_no_fields (lit ''fields'') = None"
    by (simp add: article_no_fields_def lit_def)
  have f2: "map_of article_null_fields (lit ''fields'') = Some PNone"
    by (simp add: article_null_fields_def lit_def)
  have e1: "fields_of article_no_fields = []"
    using f1 by (simp add: fields_of_def)
  have e2: "fields_of article_null_fields = []"
    using f2 by (simp add: fields_of_def)
  show ?thesis
    using encoder_total_on_missing_data [OF w1] encoder_total_on_missing_data [OF w2] w1 w2 e1 e2
    by simp blast
qed

section \<open>The decoder\<close>

lemma line_pairs_Nil [simp]: "line_pairs [] = []"
  by (simp add: line_pairs_def)

lemma line_pairs_append: "line_pairs (xs @ ys) = line_pairs xs @ line_pairs ys"
  by (simp add: line_pairs_def)

lemma line_pairs_Cons:
  "line_pairs (l # ls) = (if COLON \<in> set l then [(py_strip (takeWhile (\<lambda>c. c \<noteq> COLON) l),
                   py_strip (tl (dropWhile (\<lambda>c. c \<noteq> COLON) l)))] else []) @ line_pairs ls"
  by (simp add: line_pairs_def)

lemma parse_lines_eq: "parse_lines d ls = Inr (d ++ map_of (rev (line_pairs ls)))"
proof (induction ls arbitrary: d)
  case Nil
  then show ?case by simp
next
  case (Cons line ls)
  show ?case
  proof (cases "COLON \<in> set line")
    case True
    let ?k = "py_strip (takeWhile (\<lambda>c. c \<noteq> COLON) line)"
    let ?v = "py_strip (tl (dropWhile (\<lambda>c. c \<noteq> COLON) line))"
    have upd: "d(?k \<mapsto> ?v) ++ m = d ++ ([?k \<mapsto> ?v] ++ m)" for m :: "pystr \<rightharpoonup> pystr"
      by (rule ext) (simp add: map_add_def split: option.splits)
    have "parse_lines d (line # ls) = parse_lines (d(?k \<mapsto> ?v)) ls"
      using True by (simp add: py_split1_def)
    also have "\<dots> = Inr (d(?k \<mapsto> ?v) ++ map_of (rev (line_pairs ls)))"
      by (rule Cons)
    also have "d(?k \<mapsto> ?v) ++ map_of (rev (line_pairs ls))
        = d ++ map_of (rev (line_pairs (line # ls)))"
      using True by (simp only: upd line_pairs_Cons if_True rev_append map_of_append rev.simps
          append_Nil map_of.simps fst_conv snd_conv)
    finally show ?thesis .
  next
    case False
    then show ?thesis using Cons by (simp add: line_pairs_Cons)
  qed
qed

lemma py_split_nonempty [simp]: "py_split c s \<noteq> []"
  by (induction s) (auto split: list.splits)

lemma not_space_colon [simp]: "\<not> is_space COLON"
  by (simp add: is_space_def)

lemma space_not_colon: "is_space c \<Longrightarrow> c \<noteq> COLON"
  by (auto simp: is_space_def)

lemma py_strip_Cons_space: "is_space c \<Longrightarrow> py_strip (c # s) = py_strip s"
  by (simp add: py_strip_def)

lemma py_strip_snoc_space: "is_space c \<Longrightarrow> py_strip (s @ [c]) = py_strip s"
proof -
  assume c: "is_space c"
  show ?thesis
  proof (cases "\<forall>x\<in>set s. is_space x")
    case True
    then have "dropWhile is_space (s @ [c]) = []" "dropWhile is_space s = []"
      using c by simp_all
    then show ?thesis by (simp only: py_strip_def)
  next
    case False
    then have "dropWhile is_space (s @ [c]) = dropWhile is_space s @ [c]"
      by (auto simp: dropWhile_append)
    then show ?thesis using c by (simp add: py_strip_def)
  qed
qed

lemma line_pairs_lead_space:
  assumes "is_space c"
  shows "line_pairs ((c # l) # ls) = line_pairs (l # ls)"
  using assms space_not_colon [OF assms]
  by (auto simp: line_pairs_Cons py_strip_Cons_space)

lemma line_pairs_split_Cons_space:
  assumes "is_space c"
  shows "line_pairs (py_split LF (c # s)) = line_pairs (py_split LF s)"
proof (cases "c = LF")
  case True
  then show ?thesis by (simp add: line_pairs_Cons)
next
  case False
  obtain l ls where sp: "py_split LF s = l # ls"
    by (cases "py_split LF s") simp_all
  show ?thesis using False sp line_pairs_lead_space [OF assms] by simp
qed

lemma line_pairs_dropWhile:
  "line_pairs (py_split LF (dropWhile is_space s)) = line_pairs (py_split LF s)"
proof (induction s)
  case Nil
  then show ?case by simp
next
  case (Cons c s)
  show ?case
  proof (cases "is_space c")
    case True
    then show ?thesis using Cons line_pairs_split_Cons_space [of c s]
      by (simp del: py_split.simps)
  next
    case False
    then show ?thesis by (simp del: py_split.simps)
  qed
qed

lemma py_split_snoc:
  "py_split d (s @ [c]) =
     (if c = d then py_split d s @ [[]]
      else butlast (py_split d s) @ [last (py_split d s) @ [c]])"
proof (induction s)
  case Nil
  then show ?case by simp
next
  case (Cons x s)
  obtain l ls where sp: "py_split d s = l # ls"
    by (cases "py_split d s") simp_all
  show ?case using Cons sp by (auto split: list.splits)
qed

lemma line_pairs_trail_space:
  assumes "is_space c"
  shows "line_pairs [l @ [c]] = line_pairs [l]"
proof (cases "COLON \<in> set l")
  case True
  then have ne: "dropWhile (\<lambda>c. c \<noteq> COLON) l \<noteq> []" by simp
  have "takeWhile (\<lambda>c. c \<noteq> COLON) (l @ [c]) = takeWhile (\<lambda>c. c \<noteq> COLON) l"
    using True by (simp add: takeWhile_append1)
  moreover have "tl (dropWhile (\<lambda>c. c \<noteq> COLON) (l @ [c])) = tl (dropWhile (\<lambda>c. c \<noteq> COLON) l) @ [c]"
    using True ne by (auto simp: dropWhile_append)
  ultimately show ?thesis using True assms
    by (simp add: line_pairs_Cons py_strip_snoc_space)
next
  case False
  then show ?thesis using space_not_colon [OF assms] by (simp add: line_pairs_Cons)
qed

lemma line_pairs_split_snoc_space:
  assumes "is_space c"
  shows "line_pairs (py_split LF (s @ [c])) = line_pairs (py_split LF s)"
proof (cases "c = LF")
  case True
  then show ?thesis by (simp add: py_split_snoc line_pairs_append line_pairs_Cons)
next
  case False
  have "py_split LF s = butlast (py_split LF s) @ [last (py_split LF s)]"
    by simp
  then have "line_pairs (py_split LF s)
     = line_pairs (butlast (py_split LF s)) @ line_pairs [last (py_split LF s)]"
    by (metis line_pairs_append)
  then show ?thesis using False line_pairs_trail_space [OF assms]
    by (simp add: py_split_snoc line_pairs_append)
qed

lemma line_pairs_rev_dropWhile:
  "line_pairs (py_split LF (rev (dropWhile is_space (rev s)))) = line_pairs (py_split LF s)"
proof (induction s rule: rev_induct)
  case Nil
  then show ?case by simp
next
  case (snoc c s)
  show ?case
  proof (cases "is_space c")
    case True
    then show ?thesis using snoc line_pairs_split_snoc_space [of c s]
      by (simp del: py_split.simps)
  next
    case False
    then show ?thesis by (simp del: py_split.simps)
  qed
qed

lemma line_pairs_strip:
  "line_pairs (py_split LF (py_strip s)) = line_pairs (py_split LF s)"
  unfolding py_strip_def
  by (simp only: line_pairs_rev_dropWhile line_pairs_dropWhile)

lemma parse_article_readable:
  assumes "read_text fs p = Inr text"
  shows "parse_article fs p = Inr (Some (decode_spec (parent_name p) text))"
  using assms by (simp add: parse_article_def parse_lines_eq line_pairs_strip decode_spec_def)

lemma parse_article_unreadable:
  assumes "read_text fs p = Inl e"
  shows "parse_article fs p = Inr None"
  using assms by (simp add: parse_article_def)

lemma path_x_label: "parent_name path_x = lit ''news''"
  by (simp add: parent_name_def path_x_def)

lemma text_sample_read: "read_text [path_x \<mapsto> File text_sample] path_x = Inr text_sample"
  by (simp add: read_text_def text_sample_def lit_def)

lemma text_sample_entries:
  "decode_spec (lit ''news'') text_sample (lit ''ID'') = Some (lit ''second'')
   \<and> decode_spec (lit ''news'') text_sample (lit ''SECTION_NAME'') = Some (lit ''Sport'')
   \<and> decode_spec (lit ''news'') text_sample (lit ''URL'') = Some (lit ''http://x'')
   \<and> decode_spec (lit ''news'') text_sample (lit ''noise'') = None
   \<and> decode_spec (lit ''news'') text_sample (lit ''label'') = Some (lit ''news'')"
  by (simp add: decode_spec_def text_sample_def lit_def line_pairs_def py_strip_def is_space_def
      map_add_def)

text \<open>
  Claim C6. For every text read from a record file, \<open>parse_article\<close> returns the mapping
  the specification describes: the text is split into lines; each line with a colon is split
  once, at its first colon, into key and value, both trimmed; the pairs are entered in order,
  so the last of two equal keys wins; lines without a colon are ignored. That the code trims
  the whole text before it splits it makes no difference.
\<close>

theorem decode_line_semantics:
  assumes "read_text fs file_path = Inr text"
  shows "parse_article fs file_path = Inr (Some (decode_spec (parent_name file_path) text))"
  by (rule parse_article_readable [OF assms])

theorem decode_line_semantics_witness:
  "read_text [path_x \<mapsto> File text_sample] path_x = Inr text_sample
   \<and> parse_article [path_x \<mapsto> File text_sample] path_x
       = Inr (Some (decode_spec (lit ''news'') text_sample))
   \<and> decode_spec (lit ''news'') text_sample (lit ''ID'') = Some (lit ''second'')
   \<and> decode_spec (lit ''news'') text_sample (lit ''SECTION_NAME'') = Some (lit ''Sport'')
   \<and> decode_spec (lit ''news'') text_sample (lit ''URL'') = Some (lit ''http://x'')
   \<and> decode_spec (lit ''news'') text_sample (lit ''noise'') = None"
  using decode_line_semantics [OF text_sample_read] text_sample_read text_sample_entries
    path_x_label
  by simp

text \<open>
  Claim C4, as the code has it. \<open>parse_article\<close> raises on no text, whatever its lines
  are. When the file cannot be read, the error is not propagated: the \<open>except\<close> clause
  catches it and the function returns \<open>None\<close>.
\<close>

theorem decode_never_raises:
  "parse_article fs file_path \<noteq> Inl e
   \<and> (read_text fs file_path = Inl e' \<longrightarrow> parse_article fs file_path = Inr None)"
proof (cases "read_text fs file_path")
  case (Inl a)
  then show ?thesis by (simp add: parse_article_unreadable)
next
  case (Inr content)
  then show ?thesis by (simp add: parse_article_readable)
qed

theorem decode_never_raises_witness:
  "read_text [path_x \<mapsto> Unreadable] path_x = Inl OSError
   \<and> parse_article [path_x \<mapsto> Unreadable] path_x = Inr None
   \<and> parse_article [path_x \<mapsto> File text_sample] path_x \<noteq> Inl ValueError"
proof -
  have r: "read_text [path_x \<mapsto> Unreadable] path_x = Inl OSError"
    by (simp add: read_text_def)
  show ?thesis
    using decode_never_raises [of "[path_x \<mapsto> Unreadable]" path_x ValueError OSError]
      decode_never_raises [of "[path_x \<mapsto> File text_sample]" path_x ValueError OSError] r
    by simp
qed

text \<open>
  The claim C4 as stated fails: reading an unreadable file raises \<open>OSError\<close>, and
  \<open>parse_article\<close> returns \<open>None\<close> instead of raising it.
\<close>

theorem decode_propagates_counterexample:
  "read_text [path_x \<mapsto> Unreadable] path_x = Inl OSError
   \<and> parse_article [path_x \<mapsto> Unreadable] path_x \<noteq> Inl OSError
   \<and> parse_article [path_x \<mapsto> Unreadable] path_x = Inr None"
  by (simp add: read_text_def parse_article_def)




section \<open>The round trip\<close>

lemma universal_newlines_id: "CR \<notin> set s \<Longrightarrow> universal_newlines s = s"
  by (induction s rule: universal_newlines.induct) auto

lemma py_split_no_sep: "c \<notin> set s \<Longrightarrow> py_split c s = [s]"
  by (induction s) auto

lemma py_split_append_sep:
  "c \<notin> set l \<Longrightarrow> py_split c (l @ c # s) = l # py_split c s"
  by (induction l) auto

lemma py_split_join:
  assumes "ls \<noteq> []" and "\<forall>l \<in> set ls. c \<notin> set l"
  shows "py_split c (py_join [c] ls) = ls"
  using assms
proof (induction ls rule: induct_list012)
  case 1
  then show ?case by simp
next
  case (2 x)
  then show ?case by (simp add: py_split_no_sep)
next
  case (3 x y zs)
  then show ?case by (simp add: py_split_append_sep del: py_split.simps)
qed

lemma map_of_rev_distinct:
  "distinct (map fst ps) \<Longrightarrow> map_of (rev ps) = map_of ps"
proof (induction ps)
  case Nil
  then show ?case by simp
next
  case (Cons p ps)
  then have "fst p \<notin> dom (map_of ps)"
    by (simp add: dom_map_of_conv_image_fst)
  then have "map_of ps (fst p) = None" by blast
  then have "[fst p \<mapsto> snd p] ++ map_of ps = (map_of ps)(fst p \<mapsto> snd p)"
    by (intro ext) (simp add: map_add_def split: option.splits)
  then show ?case using Cons by (simp add: map_of_append)
qed

lemma line_pairs_key_value:
  assumes "clean_key k" and "py_strip v = v"
  shows "line_pairs [k @ lit '': '' @ v] = [(k, v)]"
proof -
  have nc: "\<forall>x\<in>set k. x \<noteq> COLON"
    using assms(1) by (auto simp: clean_key_def)
  have sk: "py_strip k = k"
    using assms(1) by (simp add: clean_key_def)
  have a: "takeWhile (\<lambda>c. c \<noteq> COLON) (k @ lit '': '' @ v) = k"
    using nc by (simp add: lit_def)
  have b: "dropWhile (\<lambda>c. c \<noteq> COLON) (k @ lit '': '' @ v) = lit '': '' @ v"
    using nc by (simp add: lit_def)
  have c: "py_strip (32 # v) = v"
    using py_strip_Cons_space [of 32 v] assms(2) by (simp add: is_space_def)
  have d: "COLON \<in> set (k @ lit '': '' @ v)"
    by (simp add: lit_def)
  have "line_pairs [k @ lit '': '' @ v]
      = [(py_strip (takeWhile (\<lambda>c. c \<noteq> COLON) (k @ lit '': '' @ v)),
          py_strip (tl (dropWhile (\<lambda>c. c \<noteq> COLON) (k @ lit '': '' @ v))))]"
    using d by (simp add: line_pairs_def)
  also have "\<dots> = [(k, v)]"
    unfolding a b using sk c by (simp add: lit_def)
  finally show ?thesis .
qed

lemma line_pairs_zip:
  assumes "length ks = length vs" and "list_all clean_key ks"
    and "list_all (\<lambda>v. py_strip v = v) vs"
  shows "line_pairs (map (\<lambda>(k, v). k @ lit '': '' @ v) (zip ks vs)) = zip ks vs"
  using assms
proof (induction ks vs rule: list_induct2)
  case Nil
  then show ?case by simp
next
  case (Cons k ks v vs)
  let ?rest = "map (\<lambda>(k, v). k @ lit '': '' @ v) (zip ks vs)"
  have kv: "line_pairs [k @ lit '': '' @ v] = [(k, v)]"
    using Cons.prems by (intro line_pairs_key_value) simp_all
  have rest: "line_pairs ?rest = zip ks vs"
    using Cons by simp
  have "line_pairs ((k @ lit '': '' @ v) # ?rest) = line_pairs ([k @ lit '': '' @ v] @ ?rest)"
    by simp
  also have "\<dots> = line_pairs [k @ lit '': '' @ v] @ line_pairs ?rest"
    by (rule line_pairs_append)
  also have "\<dots> = (k, v) # zip ks vs"
    by (simp only: kv rest append_Cons append_Nil)
  finally show ?case by simp
qed

lemma record_keys_clean: "list_all clean_key (map lit record_keys)"
  by (simp add: record_keys_def clean_key_def lit_def py_strip_def is_space_def)

lemma record_keys_distinct: "distinct (map lit record_keys)"
  by (simp add: record_keys_def lit_def)

lemma label_not_record_key: "lit ''label'' \<notin> set (map lit record_keys)"
  by (simp add: record_keys_def lit_def)

lemma length_record_keys: "length record_keys = 14"
  by (simp add: record_keys_def)

lemma length_field_values: "length (field_values kvs) = 14"
  by (simp add: field_values_def)


lemma set_py_join: "set (py_join sep ls) \<subseteq> set sep \<union> \<Union> (set ` set ls)"
  by (induction sep ls rule: py_join.induct) auto

lemma article_lines_record_lines:
  assumes "well_shaped kvs"
  shows "article_lines (PDict kvs) = Inr (record_lines kvs)"
  using article_lines_well_shaped [OF assms]
  by (simp add: record_lines_def zip_map1 case_prod_beta)

lemma record_lines_chars:
  assumes "list_all clean (field_values kvs)" and "l \<in> set (record_lines kvs)"
  shows "LF \<notin> set l \<and> CR \<notin> set l"
proof -
  from assms(2) obtain k v where kv: "(k, v) \<in> set (zip (map lit record_keys) (field_values kvs))"
    and l: "l = k @ lit '': '' @ v"
    by (auto simp: record_lines_def)
  have "k \<in> set (map lit record_keys)" using kv by (rule set_zip_leftD)
  then have "clean_key k" using record_keys_clean by (auto simp: list_all_iff)
  moreover have "v \<in> set (field_values kvs)" using kv by (rule set_zip_rightD)
  then have "clean v" using assms(1) by (simp add: list_all_iff)
  ultimately show ?thesis using l by (simp add: clean_key_def clean_def lit_def)
qed

lemma record_lines_pairs:
  assumes "list_all clean (field_values kvs)"
  shows "line_pairs (record_lines kvs) = zip (map lit record_keys) (field_values kvs)"
  unfolding record_lines_def
proof (rule line_pairs_zip)
  show "length (map lit record_keys) = length (field_values kvs)"
    by (simp add: length_record_keys length_field_values)
  show "list_all clean_key (map lit record_keys)" by (rule record_keys_clean)
  show "list_all (\<lambda>v. py_strip v = v) (field_values kvs)"
    using assms by (simp add: list_all_iff clean_def)
qed

lemma decode_encoded:
  assumes "well_shaped kvs" and "list_all clean (field_values kvs)"
    and "format_article (PDict kvs) = Inr encoded" and "fs file_path = Some (File encoded)"
  shows "parse_article fs file_path = Inr (Some ([lit ''label'' \<mapsto> parent_name file_path]
      ++ map_of (zip (map lit record_keys) (field_values kvs))))"
proof -
  have enc: "encoded = py_join [LF] (record_lines kvs)"
    using assms(3) article_lines_record_lines [OF assms(1)] by (simp add: format_article_def)
  have ne: "record_lines kvs \<noteq> []"
    by (simp add: record_lines_def record_keys_def field_values_def)
  have nocr: "CR \<notin> set encoded"
    using set_py_join [of "[LF]" "record_lines kvs"] record_lines_chars [OF assms(2)]
    unfolding enc by auto
  have rd: "read_text fs file_path = Inr encoded"
    using assms(4) universal_newlines_id [OF nocr] by (simp add: read_text_def)
  have sp: "py_split LF encoded = record_lines kvs"
    unfolding enc using ne record_lines_chars [OF assms(2)] by (intro py_split_join) auto
  have dist: "distinct (map fst (zip (map lit record_keys) (field_values kvs)))"
    using record_keys_distinct by (simp add: length_record_keys length_field_values)
  show ?thesis
    by (simp only: parse_article_readable [OF rd] decode_spec_def sp
        record_lines_pairs [OF assms(2)] map_of_rev_distinct [OF dist])
qed

text \<open>
  Claim C1, as the code has it. The record format has no escaping: the decoder splits at line
  feeds and trims every value. For a well-shaped article whose fourteen field values (tag
  lists as their comma-joined text) are clean, encoding the article, storing the text and
  decoding the file gives, under each of the fourteen keys, the value the article was built
  from, and under \<open>label\<close> the name of the file's directory.
\<close>

theorem round_trip_clean_values:
  assumes "well_shaped kvs" and "list_all clean (field_values kvs)"
    and "format_article (PDict kvs) = Inr encoded" and "fs file_path = Some (File encoded)"
  shows "(\<forall>i < 14. decoded_entry (parse_article fs file_path) (lit (record_keys ! i))
            = Some (field_values kvs ! i))
    \<and> decoded_entry (parse_article fs file_path) (lit ''label'') = Some (parent_name file_path)"
proof (intro conjI allI impI)
  let ?ks = "map lit record_keys" and ?vs = "field_values kvs"
  have len: "length ?ks = length ?vs"
    by (simp add: length_record_keys length_field_values)
  note dec = decode_encoded [where fs = fs and file_path = file_path, OF assms]
  {
    fix i :: nat assume i: "i < 14"
    have "map_of (zip ?ks ?vs) (?ks ! i) = Some (?vs ! i)"
      using len record_keys_distinct i by (intro map_of_zip_nth) (simp_all add: length_field_values)
    moreover have "?ks ! i = lit (record_keys ! i)"
      using i by (simp add: length_record_keys)
    ultimately show "decoded_entry (parse_article fs file_path) (lit (record_keys ! i))
            = Some (field_values kvs ! i)"
      by (simp add: dec decoded_entry_def map_add_def)
  }
  have "map_of (zip ?ks ?vs) (lit ''label'') = None"
    using len label_not_record_key by (simp add: map_of_zip_is_None)
  then show "decoded_entry (parse_article fs file_path) (lit ''label'') = Some (parent_name file_path)"
    by (simp add: dec decoded_entry_def map_add_def)
qed

lemma article_full_values:
  "field_values article_full = [lit ''sport/2020/x'', lit ''sport'', lit ''Sport'', lit ''A title: part 2'',
     [], lit ''Head'', [], [], lit ''Some body text.'', lit ''t1,t2'', lit ''T1,T2'', lit ''t1'', lit ''T1'', lit ''keyword'']"
  by (simp add: field_values_def article_full_def str_field_def fields_of_def tags_of_def
      primary_field_def lit_def)

theorem round_trip_clean_values_witness:
  "well_shaped article_full \<and> list_all clean (field_values article_full)
   \<and> format_article (PDict article_full) = Inr encoded_full
   \<and> decoded_entry (parse_article [path_x \<mapsto> File encoded_full] path_x) (lit ''WEB_TITLE'')
       = Some (lit ''A title: part 2'')
   \<and> decoded_entry (parse_article [path_x \<mapsto> File encoded_full] path_x) (lit ''TAGS_IDS'')
       = Some (lit ''t1,t2'')
   \<and> decoded_entry (parse_article [path_x \<mapsto> File encoded_full] path_x) (lit ''label'')
       = Some (lit ''news'')"
proof -
  have w: "well_shaped article_full"
    by (simp add: well_shaped_def article_full_def lit_def)
  have c: "list_all clean (field_values article_full)"
    unfolding article_full_values
    by (simp add: clean_def py_strip_def is_space_def lit_def)
  have f: "format_article (PDict article_full) = Inr encoded_full"
    by (simp add: format_article_def article_lines_def article_full_def encoded_full_def
        py_or_def primary_of_def primary_get_def join_csv_def fline_def lit_def)
  have s: "[path_x \<mapsto> File encoded_full] path_x = Some (File encoded_full)"
    by simp
  have k3: "lit (record_keys ! 3) = lit ''WEB_TITLE''" "lit (record_keys ! 9) = lit ''TAGS_IDS''"
    by (simp_all add: record_keys_def)
  have v3: "field_values article_full ! 3 = lit ''A title: part 2''"
    "field_values article_full ! 9 = lit ''t1,t2''"
    unfolding article_full_values by simp_all
  note rt = round_trip_clean_values [where fs = "[path_x \<mapsto> File encoded_full]"
      and file_path = path_x, OF w c f s]
  have e3: "decoded_entry (parse_article [path_x \<mapsto> File encoded_full] path_x)
      (lit ''WEB_TITLE'') = Some (lit ''A title: part 2'')"
    using rt [THEN conjunct1, rule_format, of 3] k3 v3 by simp
  have e9: "decoded_entry (parse_article [path_x \<mapsto> File encoded_full] path_x)
      (lit ''TAGS_IDS'') = Some (lit ''t1,t2'')"
    using rt [THEN conjunct1, rule_format, of 9] k3 v3 by simp
  have el: "decoded_entry (parse_article [path_x \<mapsto> File encoded_full] path_x)
      (lit ''label'') = Some (lit ''news'')"
    using rt [THEN conjunct2] path_x_label by simp
  from w c f e3 e9 el show ?thesis by simp
qed

text \<open>
  The claim C1 as stated fails: an article whose web title is \<open>" x"\<close>, with a leading
  space, decodes with the web title \<open>"x"\<close>.
\<close>

theorem round_trip_counterexample:
  "format_article (PDict article_padded_title) = Inr encoded_padded_title
   \<and> str_field article_padded_title (lit ''webTitle'') = lit '' x''
   \<and> decoded_entry (parse_article [path_x \<mapsto> File encoded_padded_title] path_x) (lit ''WEB_TITLE'')
       = Some (lit ''x'')"
proof -
  have a: "format_article (PDict article_padded_title) = Inr encoded_padded_title"
    by (simp add: format_article_def article_lines_def article_padded_title_def
        encoded_padded_title_def py_or_def primary_of_def primary_get_def join_csv_def fline_def
        lit_def)
  have b: "str_field article_padded_title (lit ''webTitle'') = lit '' x''"
    by (simp add: str_field_def article_padded_title_def lit_def)
  have c: "decoded_entry (parse_article [path_x \<mapsto> File encoded_padded_title] path_x)
      (lit ''WEB_TITLE'') = Some (lit ''x'')"
    by (simp add: decoded_entry_def parse_article_def read_text_def encoded_padded_title_def lit_def
        py_strip_def is_space_def py_split1_def)
  from a b c show ?thesis by simp
qed

section \<open>The collection loop\<close>

lemma for_article_last:
  "cnt < quota \<Longrightarrow> results \<noteq> [] \<Longrightarrow> for_article quota cnt a results = Some (last results)"
  by (induction results arbitrary: a) auto

lemma while_loop_stuck:
  assumes body: "\<And>tr. loop_body cfg src t g od \<lparr>files = F, trace = tr, count = c, page = p\<rparr>
            = Continue \<lparr>files = F, trace = tr @ [Request p], count = c, page = p\<rparr>"
    and lt: "c < articles_per_section cfg"
  shows "while_loop fuel cfg src t g od \<lparr>files = F, trace = tr, count = c, page = p\<rparr>
     = Running \<lparr>files = F, trace = tr @ replicate fuel (Request p), count = c, page = p\<rparr>"
proof (induction fuel arbitrary: tr)
  case 0
  then show ?case using lt by simp
next
  case (Suc fuel)
  have "tr @ Request p # replicate fuel (Request p) = (tr @ [Request p]) @ replicate fuel (Request p)"
    by simp
  then show ?case using lt body [of tr] Suc [of "tr @ [Request p]"] by simp
qed

lemma loop_body_existing:
  assumes "src tr g (page_size cfg) p = Inr results" and "results \<noteq> []"
    and "c < articles_per_section cfg"
    and "art_id_of t p c (last results) = Inr art_id"
    and "path_exists F (path_join od (art_id @ lit ''.txt''))"
  shows "loop_body cfg src t g od \<lparr>files = F, trace = tr, count = c, page = p\<rparr>
            = Continue \<lparr>files = F, trace = tr @ [Request p], count = c, page = p\<rparr>"
  using assms by (simp add: loop_body_def for_article_last)

lemma first_run_trace: "returned first_run \<and> trace (outcome_state first_run) = [Request 1, Write (news_file ''news_b.txt''), Sleep, Request 2]
  \<and> count (outcome_state first_run) = 1"
  by (simp add: first_run_def collect_section_def mkdir_parents_def module_config_def ARTICLES_PER_SECTION_def PAGE_SIZE_def
     Let_def loop_body_def source_one_page_def article_id_def art_id_of_def replace_slash_def lit_def
     format_article_def article_lines_def py_or_def primary_of_def primary_get_def join_csv_def fline_def news_file_def
     path_join_def path_parts_def path_root_def has_nul_def is_dir_def path_exists_def write_text_def)

lemma stored_entries: "stored_after_first_run [lit ''data''] = Some Dir \<and> stored_after_first_run [lit ''data'', lit ''news''] = Some Dir
  \<and> stored_after_first_run (news_file ''news_b.txt'') \<noteq> None \<and> stored_after_first_run (news_file ''news_a.txt'') = None"
  by (simp add: stored_after_first_run_def first_run_def collect_section_def mkdir_parents_def module_config_def ARTICLES_PER_SECTION_def PAGE_SIZE_def
     Let_def loop_body_def source_one_page_def article_id_def art_id_of_def replace_slash_def lit_def
     format_article_def article_lines_def py_or_def primary_of_def primary_get_def join_csv_def fline_def news_file_def
     path_join_def path_parts_def path_root_def has_nul_def is_dir_def path_exists_def write_text_def)

lemma mkdir_parents_existing:
  assumes "\<forall>n \<in> {1..length d}. fs (take n d) = Some Dir" and "d \<noteq> []" and "\<not> has_nul d"
  shows "mkdir_parents fs d = Inr fs"
proof -
  have a: "\<not> list_ex (\<lambda>n. not_dir (fs (take n d))) [1..<length d]"
    using assms by (auto simp: list_ex_iff)
  have "length d \<in> {1..length d}"
    using assms(2) by (cases d) simp_all
  then have "fs (take (length d) d) = Some Dir"
    using assms(1) by blast
  then have full: "fs d = Some Dir" by simp
  then have b: "\<not> not_dir (fs d)" by simp
  have c: "(\<lambda>p. if p \<in> set (map (\<lambda>n. take n d) [1..<Suc (length d)]) \<and> fs p = None
               then Some Dir else fs p) = fs"
    using assms full by (auto intro!: ext)
  show ?thesis using a b c assms(3) by (simp add: mkdir_parents_def)
qed

lemma art_id_news_b:
  "art_id_of (lit ''news'') p c (article_id ''news/b'') = Inr (lit ''news_b'')"
  by (simp add: art_id_of_def article_id_def replace_slash_def lit_def)

lemma source_one_page_stuck:
  assumes "F (news_file ''news_b.txt'') \<noteq> None"
  shows "loop_body module_config source_one_page (lit ''news'') (lit ''news'')
           [lit ''data'', lit ''news''] \<lparr>files = F, trace = tr, count = 0, page = 1\<rparr>
         = Continue \<lparr>files = F, trace = tr @ [Request 1], count = 0, page = 1\<rparr>"
proof (rule loop_body_existing)
  show "source_one_page tr (lit ''news'') (page_size module_config) 1
      = Inr [article_id ''news/a'', article_id ''news/b'']"
    by (simp add: source_one_page_def)
  show "[article_id ''news/a'', article_id ''news/b''] \<noteq> []" by simp
  show "0 < articles_per_section module_config"
    by (simp add: module_config_def ARTICLES_PER_SECTION_def)
  show "art_id_of (lit ''news'') 1 0 (last [article_id ''news/a'', article_id ''news/b''])
      = Inr (lit ''news_b'')"
    using art_id_news_b by simp
  show "path_exists F (path_join [lit ''data'', lit ''news''] (lit ''news_b'' @ lit ''.txt''))"
    using assms
    by (simp add: news_file_def lit_def path_exists_def path_join_def path_parts_def
        path_root_def has_nul_def)
qed

lemma rerun_stuck:
  assumes "F [lit ''data''] = Some Dir" and "F [lit ''data'', lit ''news''] = Some Dir"
    and "F (news_file ''news_b.txt'') \<noteq> None"
  shows "collect_section fuel module_config source_one_page F [lit ''data''] (lit ''news'') (lit ''news'')
    = Running \<lparr>files = F, trace = replicate fuel (Request 1), count = 0, page = 1\<rparr>"
proof -
  have "\<forall>n\<in>{1..length [lit ''data'', lit ''news'']}. F (take n [lit ''data'', lit ''news'']) = Some Dir"
  proof
    fix n assume "n \<in> {1..length [lit ''data'', lit ''news'']}"
    then have "n = 1 \<or> n = 2" by auto
    then show "F (take n [lit ''data'', lit ''news'']) = Some Dir"
      using assms(1,2) by (auto simp: numeral_2_eq_2)
  qed
  then have mk: "mkdir_parents F [lit ''data'', lit ''news''] = Inr F"
    by (rule mkdir_parents_existing) (simp_all add: has_nul_def lit_def)
  have od: "path_join [lit ''data''] (lit ''news'') = [lit ''data'', lit ''news'']"
    by (simp add: path_join_def path_parts_def path_root_def lit_def)
  have lt: "0 < articles_per_section module_config"
    by (simp add: module_config_def ARTICLES_PER_SECTION_def)
  show ?thesis
    using while_loop_stuck [of module_config source_one_page "lit ''news''" "lit ''news''"
        "[lit ''data'', lit ''news'']" F 0 1 fuel "[]"] source_one_page_stuck [of F, OF assms(3)] lt
    by (simp add: collect_section_def od mk)
qed

lemma collect_section_quota_zero:
  assumes "articles_per_section cfg = 0"
    and "mkdir_parents fs (path_join base target_name) = Inr fs'"
  shows "collect_section fuel cfg src fs base target_name gurdian_id
     = Returned \<lparr>files = fs', trace = [], count = 0, page = 1\<rparr>"
  using assms by (cases fuel) (simp_all add: collect_section_def)

lemma mkdir_parents_keeps_files:
  assumes "mkdir_parents fs d = Inr fs'"
  shows "fs' p = fs p \<or> (fs p = None \<and> fs' p = Some Dir)"
  using assms by (auto simp: mkdir_parents_def split: if_splits)

text \<open>
  Claim C2 fails on the code. A first run, with the module's quota of 1000, against a source
  with one page of two articles writes the file of the page's last article and returns when
  page 2 comes back empty. The second run, on the storage the first one left, finds that file
  present; \<open>continue\<close> then restarts the \<open>while\<close> loop with the same page and the same
  count, so with any fuel the loop is still running, the storage unchanged, and all it has
  done is request page 1 again and again.
\<close>

theorem rerun_never_terminates:
  "returned first_run
   \<and> trace (outcome_state first_run)
       = [Request 1, Write (news_file ''news_b.txt''), Sleep, Request 2]
   \<and> (\<forall>fuel. collect_section fuel module_config source_one_page stored_after_first_run
         [lit ''data''] (lit ''news'') (lit ''news'')
       = Running \<lparr>files = stored_after_first_run, trace = replicate fuel (Request 1),
           count = 0, page = 1\<rparr>)"
  using first_run_trace stored_entries rerun_stuck [of stored_after_first_run]
  by simp

lemma storage_existing_entries:
  "storage_existing [lit ''data''] = Some Dir \<and> storage_existing [lit ''data'', lit ''news''] = Some Dir
   \<and> storage_existing (news_file ''news_b.txt'') \<noteq> None"
  by (simp add: storage_existing_def news_file_def lit_def)

text \<open>
  Claim C5 fails on the code. When the file of a page's last article exists already, the
  items of the page are skipped, and the next request follows at once: the trace of the run
  holds requests for page 1 only, with no sleep between them, and no request for page 2.
\<close>

theorem skipped_page_requested_again_without_wait:
  "\<forall>fuel. trace (outcome_state (collect_section fuel module_config source_one_page storage_existing
       [lit ''data''] (lit ''news'') (lit ''news''))) = replicate fuel (Request 1)"
  using storage_existing_entries rerun_stuck [of storage_existing]
  by simp

text \<open>
  Claim C3 fails on the code in its second half. With quota 2 and page size 3, against a
  source whose first page holds three new articles, the run writes only the last article of
  page 1, sleeps, and requests page 2; the first two articles of page 1 are never written.
  (With quota 0 no request is made and no file is written: \<open>collect_section_quota_zero\<close>.)
\<close>

theorem quota_two_requests_second_page:
  "returned (collect_section (Suc (Suc 0)) small_config source_two_pages Map.empty
       [lit ''data''] (lit ''news'') (lit ''news''))
   \<and> trace (outcome_state (collect_section (Suc (Suc 0)) small_config source_two_pages Map.empty
       [lit ''data''] (lit ''news'') (lit ''news'')))
      = [Request 1, Write (news_file ''c.txt''), Sleep, Request 2, Write (news_file ''f.txt'')]
   \<and> files (outcome_state (collect_section (Suc (Suc 0)) small_config source_two_pages Map.empty
       [lit ''data''] (lit ''news'') (lit ''news''))) (news_file ''a.txt'') = None
   \<and> files (outcome_state (collect_section (Suc (Suc 0)) small_config source_two_pages Map.empty
       [lit ''data''] (lit ''news'') (lit ''news''))) (news_file ''b.txt'') = None"
  by (simp add: collect_section_def mkdir_parents_def small_config_def
     Let_def loop_body_def source_two_pages_def article_id_def art_id_of_def replace_slash_def lit_def
     format_article_def article_lines_def py_or_def primary_of_def primary_get_def join_csv_def fline_def news_file_def
     path_join_def path_parts_def path_root_def has_nul_def is_dir_def path_exists_def write_text_def)




















end
